theory Spec2Isabelle
  imports Complex_Main "HOL-Library.Word"
begin

section \<open>Values exchanged with the session transport and the metrics registry\<close>

text \<open>
  Go's \<open>uint\<close> is modelled at 64 bits (the width on the platforms the exporter is built
  for). A gauge value (\<open>float64\<close>) is modelled by the number it denotes.
\<close>

type_synonym uint = "64 word"
type_synonym float64 = real

text \<open>
  An \<open>error\<close> value is either one reported by the session transport (its message) or
  the registry's complaint that the number of label values does not fit the descriptor.
\<close>

datatype error = SnmpError string | errInconsistentCardinality

text \<open>
  \<open>SnmpPDU.Value\<close> is an \<open>interface{}\<close>: the dynamic type is part of the value. The
  constructors are the dynamic types the transport can deliver.
\<close>

datatype payload =
    ByteSlice string
  | Uint uint
  | Uint32 "32 word"
  | Uint64 "64 word"
  | Int int
  | String string
  | NilValue

record SnmpPDU =
  Name :: string
  Value :: payload

record Desc =
  fqName :: string
  helpText :: string
  variableLabels :: "string list"

definition NewDesc :: "string \<Rightarrow> string \<Rightarrow> string list \<Rightarrow> Desc" where
  "NewDesc n h ls = \<lparr>fqName = n, helpText = h, variableLabels = ls\<rparr>"

text \<open>A \<open>prometheus.Metric\<close> is an interface value: \<open>nil\<close> or a constant gauge.\<close>

datatype Metric = nil_Metric | constMetric Desc float64 "string list"

text \<open>
  The registry's constant-metric constructor (section 6 of the specification): it
  returns the metric, or an error when the number of label values differs from the
  number of label names of the descriptor.
\<close>

definition NewConstMetric :: "Desc \<Rightarrow> float64 \<Rightarrow> string list \<Rightarrow> error + Metric" where
  "NewConstMetric d v ls =
     (if length ls \<noteq> length (variableLabels d) then Inl errInconsistentCardinality
      else Inr (constMetric d v ls))"

section \<open>Constants and descriptors (\<open>const\<close>, \<open>var\<close>, \<open>init\<close>)\<close>

definition numberOfInterfaceLabels :: nat where
  "numberOfInterfaceLabels = 2"

definition prefix :: string where
  "prefix = ''junos_''"

definition upDesc :: Desc where
  "upDesc = NewDesc (prefix @ ''up'') ''Scrape of target was successful'' [''target'']"

definition l_init :: "string list" where
  "l_init = [''name'', ''description'', ''target'']"

definition receiveBytesDesc :: Desc where
  "receiveBytesDesc =
     NewDesc (prefix @ ''interface_receive_bytes'') ''Received data in bytes'' l_init"

definition receiveErrorsDesc :: Desc where
  "receiveErrorsDesc =
     NewDesc (prefix @ ''interface_receive_errors'')
       ''Number of errors caused by incoming packets'' l_init"

definition receiveDropsDesc :: Desc where
  "receiveDropsDesc =
     NewDesc (prefix @ ''interface_receive_drops'') ''Number of dropped incoming packets'' l_init"

definition transmitBytesDesc :: Desc where
  "transmitBytesDesc =
     NewDesc (prefix @ ''interface_transmit_bytes'') ''Transmitted data in bytes'' l_init"

definition transmitErrorsDesc :: Desc where
  "transmitErrorsDesc =
     NewDesc (prefix @ ''interface_transmit_errors'')
       ''Number of errors caused by outgoing packets'' l_init"

definition transmitDropsDesc :: Desc where
  "transmitDropsDesc =
     NewDesc (prefix @ ''interface_transmit_drops'') ''Number of dropped outgoing packets'' l_init"

section \<open>Unit converters\<close>

text \<open>
  Modelled from the spec: \<open>bitsToBytes\<close> and \<open>noConvert\<close> are used by
  \<open>collectMetrics\<close> but defined in a file that is not part of the sources at hand. The
  specification (section 4.2) gives them as \<open>bitsToBytes(v) -> v/8\<close>, the unsigned integer
  division, and \<open>identity(v) -> v\<close>; both have the type \<open>ValueConverter\<close>, from an unsigned
  integer to a gauge value.
\<close>

definition bitsToBytes :: "uint \<Rightarrow> float64" where
  "bitsToBytes v = of_nat (unat (v div 8))"

definition noConvert :: "uint \<Rightarrow> float64" where
  "noConvert v = of_nat (unat v)"

section \<open>Slices of strings over an explicit store\<close>

text \<open>
  A Go slice is a view of a backing array; two slices over one array see each other's
  writes. The store is the list of the string arrays allocated so far, an address is a
  position in it, and the capacity of a slice is the length of its array (no slice of
  this program is re-sliced, so every slice starts at the beginning of its array).
\<close>

type_synonym store = "string list list"

datatype slice = Slice (arr: "nat option") (slen: nat)

definition nil_slice :: slice where
  "nil_slice = Slice None 0"

definition cap :: "store \<Rightarrow> slice \<Rightarrow> nat" where
  "cap h sl = (case arr sl of None \<Rightarrow> 0 | Some a \<Rightarrow> length (h ! a))"

definition elems :: "store \<Rightarrow> slice \<Rightarrow> string list" where
  "elems h sl = (case arr sl of None \<Rightarrow> [] | Some a \<Rightarrow> take (slen sl) (h ! a))"

text \<open>\<open>make([]string, n)\<close>: a new array of \<open>n\<close> empty strings, length and capacity \<open>n\<close>.\<close>

definition make_slice :: "store \<Rightarrow> nat \<Rightarrow> store \<times> slice" where
  "make_slice h n = (h @ [replicate n []], Slice (Some (length h)) n)"

text \<open>The capacity of the array a growing \<open>append\<close> allocates: doubled, or what is needed.\<close>

definition growcap :: "nat \<Rightarrow> nat \<Rightarrow> nat" where
  "growcap old needed = (if 2 * old < needed then needed else 2 * old)"

text \<open>
  \<open>append(sl, x)\<close>: with spare capacity the element is written into the shared array,
  otherwise the elements are copied to a new array.
\<close>

definition append_slice :: "store \<Rightarrow> slice \<Rightarrow> string \<Rightarrow> store \<times> slice" where
  "append_slice h sl x =
     (let n = slen sl;
          grown = (h @ [elems h sl @ x # replicate (growcap (cap h sl) (Suc n) - Suc n) []],
                   Slice (Some (length h)) (Suc n))
      in case arr sl of
           None \<Rightarrow> grown
         | Some a \<Rightarrow>
             if n < length (h ! a) then (h[a := (h ! a)[n := x]], Slice (Some a) (Suc n))
             else grown)"

text \<open>\<open>sl[i] = x\<close>: \<open>None\<close> is the index-out-of-range panic.\<close>

definition store_index :: "store \<Rightarrow> slice \<Rightarrow> nat \<Rightarrow> string \<Rightarrow> store option" where
  "store_index h sl i x =
     (case arr sl of
        None \<Rightarrow> None
      | Some a \<Rightarrow> if i < slen sl then Some (h[a := (h ! a)[i := x]]) else None)"

section \<open>The collector and the scope of one target\<close>

record JunosCollector =
  targets :: "string list"
  community :: string

datatype conn = conn_nil | conn_open | conn_closed

text \<open>
  The session handle. \<open>Walked\<close> is the observation of the session's traffic: the tables
  walked so far, each with the error its walk returned. Nothing reads it.
\<close>

record GoSNMP =
  Target :: string
  Port :: nat
  Community :: string
  Version :: nat
  Timeout :: nat
  Conn :: conn
  Walked :: "(string \<times> error option) list"

text \<open>
  The scope of one target, with the two parts of the world its goroutine acts on:
  \<open>ch\<close> holds the metrics this goroutine has sent on the channel, in order, and
  \<open>heap\<close> the string arrays it has allocated.
\<close>

record scope =
  interfaceLabels :: "string \<rightharpoonup> slice"
  snmp :: GoSNMP
  ch :: "Metric list"
  err :: "error option"
  heap :: store

text \<open>A call returns a value in a new state, or panics in the state it reached.\<close>

datatype 'a outcome = Return 'a scope | Panic scope

fun state_of :: "'a outcome \<Rightarrow> scope" where
  "state_of (Return _ s) = s"
| "state_of (Panic s) = s"

fun panics :: "'a outcome \<Rightarrow> bool" where
  "panics (Return _ _) = False"
| "panics (Panic _) = True"

text \<open>Sequencing of two statements: a panic of the first skips the second.\<close>

definition seq :: "unit outcome \<Rightarrow> (scope \<Rightarrow> unit outcome) \<Rightarrow> unit outcome" where
  "seq m f = (case m of Panic s \<Rightarrow> Panic s | Return _ s \<Rightarrow> f s)"

section \<open>The device behind a session\<close>

text \<open>
  What the device does in one session: the result of \<open>Connect\<close>, and for each table the
  rows its walk would deliver followed by the error, if any, the transport ends the walk
  with.
\<close>

record device =
  connect_result :: "error option"
  walk_reply :: "string \<Rightarrow> SnmpPDU list \<times> error option"

text \<open>
  The transport's walk (section 6 of the specification): the callback is called on each
  row in turn; an error it returns aborts the walk and is the walk's result.
\<close>

fun walk_rows ::
  "(SnmpPDU \<Rightarrow> scope \<Rightarrow> error option outcome) \<Rightarrow> SnmpPDU list \<Rightarrow> error option \<Rightarrow> scope
     \<Rightarrow> error option outcome" where
  "walk_rows fn [] final s = Return final s"
| "walk_rows fn (p # ps) final s =
     (case fn p s of
        Panic s' \<Rightarrow> Panic s'
      | Return (Some e) s' \<Rightarrow> Return (Some e) s'
      | Return None s' \<Rightarrow> walk_rows fn ps final s')"

definition log_walk :: "string \<Rightarrow> error option \<Rightarrow> scope \<Rightarrow> scope" where
  "log_walk oid r s = s\<lparr>snmp := (snmp s)\<lparr>Walked := Walked (snmp s) @ [(oid, r)]\<rparr>\<rparr>"

definition Walk ::
  "device \<Rightarrow> string \<Rightarrow> (SnmpPDU \<Rightarrow> scope \<Rightarrow> error option outcome) \<Rightarrow> scope
     \<Rightarrow> error option outcome" where
  "Walk dev oid fn s =
     (case walk_rows fn (fst (walk_reply dev oid)) (snd (walk_reply dev oid)) s of
        Panic s' \<Rightarrow> Panic s'
      | Return r s' \<Rightarrow> Return r (log_walk oid r s'))"

section \<open>The collection engine\<close>

text \<open>
  \<open>strings.Split\<close> at a one-byte separator: the pieces between the separators, one
  piece more than there are separators.
\<close>

fun strings_Split :: "string \<Rightarrow> char \<Rightarrow> string list" where
  "strings_Split [] sep = [[]]"
| "strings_Split (x # xs) sep =
     (if x = sep then [] # strings_Split xs sep
      else (case strings_Split xs sep of
              [] \<Rightarrow> [[x]]
            | w # ws \<Rightarrow> (x # w) # ws))"

text \<open>
  The methods below are methods of \<open>JunosCollector\<close>; only \<open>collectForTarget\<close> reads
  the collector (its community), so only it, \<open>Describe\<close> and \<open>Collect\<close> take it as an
  argument here. The device that answers the session of the scope is an argument of the
  methods that reach it.
\<close>

text \<open>\<open>t[len(t)-1]\<close>: \<open>None\<close> is the index-out-of-range panic on an empty \<open>t\<close>.\<close>

definition getId :: "string \<Rightarrow> string option" where
  "getId oid =
     (let t = strings_Split oid CHR ''.''
      in if length t = 0 then None else Some (t ! (length t - 1)))"

definition upMetric :: "float64 \<Rightarrow> scope \<Rightarrow> Metric" where
  "upMetric v s =
     (case NewConstMetric upDesc v [Target (snmp s)] of
        Inr m \<Rightarrow> m
      | Inl _ \<Rightarrow> nil_Metric)"

definition handlePduAsLabel :: "nat \<Rightarrow> SnmpPDU \<Rightarrow> scope \<Rightarrow> unit outcome" where
  "handlePduAsLabel index p s =
     (case getId (Name p) of
        None \<Rightarrow> Panic s
      | Some ident \<Rightarrow>
          let (l, s1) =
                (case interfaceLabels s ident of
                   Some l \<Rightarrow> (l, s)
                 | None \<Rightarrow>
                     let (h, l) = make_slice (heap s) numberOfInterfaceLabels
                     in (l, s\<lparr>interfaceLabels := (interfaceLabels s)(ident \<mapsto> l), heap := h\<rparr>))
          in case Value p of
               ByteSlice b \<Rightarrow>
                 (case store_index (heap s1) l index b of
                    None \<Rightarrow> Panic s1
                  | Some h \<Rightarrow> Return () (s1\<lparr>heap := h\<rparr>))
             | _ \<Rightarrow> Panic s1)"

definition handlePduAsMetric ::
  "Desc \<Rightarrow> SnmpPDU \<Rightarrow> (uint \<Rightarrow> float64) \<Rightarrow> scope \<Rightarrow> error option outcome" where
  "handlePduAsMetric desc pdu converter s =
     (case getId (Name pdu) of
        None \<Rightarrow> Panic s
      | Some ident \<Rightarrow>
          (case Value pdu of
             Uint v \<Rightarrow>
               let (h, l) =
                     append_slice (heap s)
                       (case interfaceLabels s ident of None \<Rightarrow> nil_slice | Some l \<Rightarrow> l)
                       (Target (snmp s));
                   s1 = s\<lparr>heap := h\<rparr>
               in (case NewConstMetric desc (converter v) (elems h l) of
                     Inl e \<Rightarrow> Return (Some e) s1
                   | Inr m \<Rightarrow> Return None (s1\<lparr>ch := ch s1 @ [m]\<rparr>))
           | _ \<Rightarrow> Panic s))"

definition fetchInterfaceLabelFromOid :: "device \<Rightarrow> string \<Rightarrow> nat \<Rightarrow> scope \<Rightarrow> unit outcome" where
  "fetchInterfaceLabelFromOid dev oid index s =
     (case Walk dev oid
             (\<lambda>pdu s. case handlePduAsLabel index pdu s of
                        Panic s' \<Rightarrow> Panic s'
                      | Return _ s' \<Rightarrow> Return None s') s of
        Panic s' \<Rightarrow> Panic s'
      | Return e s' \<Rightarrow>
          if e \<noteq> None \<and> err s' = None then Return () (s'\<lparr>err := e\<rparr>) else Return () s')"

text \<open>The closure a label walk is given: it never returns an error.\<close>

abbreviation label_callback :: "nat \<Rightarrow> SnmpPDU \<Rightarrow> scope \<Rightarrow> error option outcome" where
  "label_callback i \<equiv> (\<lambda>pdu s. case handlePduAsLabel i pdu s of
                                   Panic s' \<Rightarrow> Panic s'
                                 | Return _ s' \<Rightarrow> Return None s')"

definition fetchInterfaceMetricFromOid ::
  "device \<Rightarrow> string \<Rightarrow> Desc \<Rightarrow> (uint \<Rightarrow> float64) \<Rightarrow> scope \<Rightarrow> unit outcome" where
  "fetchInterfaceMetricFromOid dev oid desc converter s =
     (case Walk dev oid (\<lambda>pdu s. handlePduAsMetric desc pdu converter s) s of
        Panic s' \<Rightarrow> Panic s'
      | Return e s' \<Rightarrow>
          if e \<noteq> None \<and> err s' = None then Return () (s'\<lparr>err := e\<rparr>) else Return () s')"

text \<open>The deferred \<open>Conn.Close()\<close> runs when the function is left, by return or by panic.\<close>

definition close_conn :: "scope \<Rightarrow> scope" where
  "close_conn s = s\<lparr>snmp := (snmp s)\<lparr>Conn := conn_closed\<rparr>\<rparr>"

fun deferred_Close :: "unit outcome \<Rightarrow> unit outcome" where
  "deferred_Close (Return u s) = Return u (close_conn s)"
| "deferred_Close (Panic s) = Panic (close_conn s)"

text \<open>
  \<open>Connect\<close> sets \<open>Conn\<close> when it succeeds and leaves it as it was when it fails. The
  \<open>defer\<close> statement evaluates \<open>s.snmp.Conn.Close\<close>, which panics on a nil \<open>Conn\<close>: this
  is the path of a failed \<open>Connect\<close> in a scope that already holds an error.
\<close>

definition collectMetrics :: "device \<Rightarrow> scope \<Rightarrow> unit outcome" where
  "collectMetrics dev s =
     (let e = connect_result dev;
          s1 = (if e = None then s\<lparr>snmp := (snmp s)\<lparr>Conn := conn_open\<rparr>\<rparr> else s)
      in if e \<noteq> None \<and> err s1 = None then Return () (s1\<lparr>err := e\<rparr>)
         else if Conn (snmp s1) = conn_nil then Panic s1
         else deferred_Close
           (seq (fetchInterfaceLabelFromOid dev ''.1.3.6.1.2.1.31.1.1.1.1'' 0 s1) (\<lambda>s.
            seq (fetchInterfaceLabelFromOid dev ''.1.3.6.1.2.1.31.1.1.1.18'' 1 s) (\<lambda>s.
            seq (fetchInterfaceMetricFromOid dev ''.1.3.6.1.2.1.2.2.1.10'' receiveBytesDesc bitsToBytes s) (\<lambda>s.
            seq (fetchInterfaceMetricFromOid dev ''.1.3.6.1.2.1.2.2.1.16'' transmitBytesDesc bitsToBytes s) (\<lambda>s.
            seq (fetchInterfaceMetricFromOid dev ''.1.3.6.1.2.1.2.2.1.13'' receiveDropsDesc noConvert s) (\<lambda>s.
            seq (fetchInterfaceMetricFromOid dev ''.1.3.6.1.2.1.2.2.1.14'' receiveErrorsDesc noConvert s) (\<lambda>s.
            seq (fetchInterfaceMetricFromOid dev ''.1.3.6.1.2.1.2.2.1.19'' transmitDropsDesc noConvert s) (\<lambda>s.
            fetchInterfaceMetricFromOid dev ''.1.3.6.1.2.1.2.2.1.20'' transmitErrorsDesc noConvert s)))))))))"

text \<open>
  The scope \<open>collectForTarget\<close> starts from. \<open>log.Error\<close> writes the sticky error to the
  log and changes nothing else; the deferred \<open>wg.Done()\<close> lets \<open>Collect\<close> return once
  every goroutine has ended.
\<close>

definition new_scope :: "JunosCollector \<Rightarrow> string \<Rightarrow> scope" where
  "new_scope c target =
     \<lparr>interfaceLabels = Map.empty,
      snmp = \<lparr>Target = target, Port = 161, Community = community c, Version = 1,
              Timeout = 2, Conn = conn_nil, Walked = []\<rparr>,
      ch = [], err = None, heap = []\<rparr>"

definition collectForTarget :: "JunosCollector \<Rightarrow> device \<Rightarrow> string \<Rightarrow> unit outcome" where
  "collectForTarget c dev target =
     (case collectMetrics dev (new_scope c target) of
        Panic s \<Rightarrow> Panic s
      | Return _ s \<Rightarrow>
          if err s \<noteq> None then Return () (s\<lparr>ch := ch s @ [upMetric 0 s]\<rparr>)
          else Return () (s\<lparr>ch := ch s @ [upMetric 1 s]\<rparr>))"

definition Describe :: "JunosCollector \<Rightarrow> Desc list" where
  "Describe c =
     [upDesc, receiveBytesDesc, receiveErrorsDesc, receiveDropsDesc,
      transmitBytesDesc, transmitDropsDesc, transmitErrorsDesc]"




section \<open>Notions of the specification\<close>

text \<open>The last dot-separated component of a row identifier.\<close>

definition last_component :: "string \<Rightarrow> string" where
  "last_component oid = rev (takeWhile (\<lambda>x. x \<noteq> CHR ''.'') (rev oid))"

text \<open>The sticky error of a sequence of results: the first failure.\<close>

fun first_error :: "error option list \<Rightarrow> error option" where
  "first_error [] = None"
| "first_error (None # rs) = first_error rs"
| "first_error (Some e # rs) = Some e"

text \<open>
  The polled tables as section 6 of the specification lists them: a label table with
  its slot, or a counter table with its descriptor and its converter.
\<close>

datatype table = LabelTable string nat | CounterTable string Desc "uint \<Rightarrow> float64"

fun table_oid :: "table \<Rightarrow> string" where
  "table_oid (LabelTable oid i) = oid"
| "table_oid (CounterTable oid d cv) = oid"

definition spec_tables :: "table list" where
  "spec_tables =
     [LabelTable ''.1.3.6.1.2.1.31.1.1.1.1'' 0,
      LabelTable ''.1.3.6.1.2.1.31.1.1.1.18'' 1,
      CounterTable ''.1.3.6.1.2.1.2.2.1.10'' receiveBytesDesc bitsToBytes,
      CounterTable ''.1.3.6.1.2.1.2.2.1.16'' transmitBytesDesc bitsToBytes,
      CounterTable ''.1.3.6.1.2.1.2.2.1.13'' receiveDropsDesc noConvert,
      CounterTable ''.1.3.6.1.2.1.2.2.1.14'' receiveErrorsDesc noConvert,
      CounterTable ''.1.3.6.1.2.1.2.2.1.19'' transmitDropsDesc noConvert,
      CounterTable ''.1.3.6.1.2.1.2.2.1.20'' transmitErrorsDesc noConvert]"

fun fetch_table :: "device \<Rightarrow> table \<Rightarrow> scope \<Rightarrow> unit outcome" where
  "fetch_table dev (LabelTable oid i) s = fetchInterfaceLabelFromOid dev oid i s"
| "fetch_table dev (CounterTable oid d cv) s = fetchInterfaceMetricFromOid dev oid d cv s"

fun walk_tables :: "device \<Rightarrow> table list \<Rightarrow> scope \<Rightarrow> unit outcome" where
  "walk_tables dev [] s = Return () s"
| "walk_tables dev (t # ts) s = seq (fetch_table dev t s) (walk_tables dev ts)"

text \<open>The engine of section 4.4, driven by a list of tables.\<close>

definition collect_tables :: "table list \<Rightarrow> device \<Rightarrow> scope \<Rightarrow> unit outcome" where
  "collect_tables ts dev s =
     (case connect_result dev of
        Some e \<Rightarrow>
          if err s = None then Return () (s\<lparr>err := Some e\<rparr>)
          else if Conn (snmp s) = conn_nil then Panic s
          else deferred_Close (walk_tables dev ts s)
      | None \<Rightarrow>
          deferred_Close (walk_tables dev ts (s\<lparr>snmp := (snmp s)\<lparr>Conn := conn_open\<rparr>\<rparr>)))"

text \<open>A row whose value has the type its handler expects.\<close>

fun is_ByteSlice :: "payload \<Rightarrow> bool" where
  "is_ByteSlice (ByteSlice b) = True"
| "is_ByteSlice _ = False"

fun is_Uint :: "payload \<Rightarrow> bool" where
  "is_Uint (Uint v) = True"
| "is_Uint _ = False"

fun rows_fit :: "device \<Rightarrow> table \<Rightarrow> bool" where
  "rows_fit dev (LabelTable oid i) =
     list_all (\<lambda>p. is_ByteSlice (Value p)) (fst (walk_reply dev oid))"
| "rows_fit dev (CounterTable oid d cv) =
     list_all (\<lambda>p. is_Uint (Value p)) (fst (walk_reply dev oid))"

definition well_typed :: "device \<Rightarrow> bool" where
  "well_typed dev = list_all (rows_fit dev) spec_tables"



text \<open>
  The shape of the label table: every entry is a slice of \<open>numberOfInterfaceLabels\<close>
  elements that fills its array.
\<close>

definition labels_inv :: "scope \<Rightarrow> bool" where
  "labels_inv s \<longleftrightarrow>
     (\<forall>ident l. interfaceLabels s ident = Some l \<longrightarrow>
        (\<exists>a. arr l = Some a \<and> a < length (heap s) \<and> slen l = numberOfInterfaceLabels \<and>
             length (heap s ! a) = numberOfInterfaceLabels))"

section \<open>Devices of the examples\<close>

definition reply_of ::
  "(string \<times> SnmpPDU list \<times> error option) list \<Rightarrow> string \<Rightarrow> SnmpPDU list \<times> error option" where
  "reply_of tbl oid = (case map_of tbl oid of None \<Rightarrow> ([], None) | Some r \<Rightarrow> r)"

definition row :: "string \<Rightarrow> payload \<Rightarrow> SnmpPDU" where
  "row n v = \<lparr>Name = n, Value = v\<rparr>"

text \<open>The end-to-end scenario of section 8: interface 9 of target 10.0.0.1.\<close>

definition dev_uplink :: device where
  "dev_uplink =
     \<lparr>connect_result = None,
      walk_reply = reply_of
        [(''.1.3.6.1.2.1.31.1.1.1.1'',
            [row ''.1.3.6.1.2.1.31.1.1.1.1.9'' (ByteSlice ''ge-0/0/0'')], None),
         (''.1.3.6.1.2.1.31.1.1.1.18'',
            [row ''.1.3.6.1.2.1.31.1.1.1.18.9'' (ByteSlice ''uplink'')], None),
         (''.1.3.6.1.2.1.2.2.1.10'',
            [row ''.1.3.6.1.2.1.2.2.1.10.9'' (Uint 8000)], None)]\<rparr>"

text \<open>A device whose session setup times out.\<close>

definition dev_down :: device where
  "dev_down = \<lparr>connect_result = Some (SnmpError ''timeout''), walk_reply = reply_of []\<rparr>"

text \<open>A device that answers the name table with an unsigned integer.\<close>

definition dev_mistyped :: device where
  "dev_mistyped =
     \<lparr>connect_result = None,
      walk_reply = reply_of
        [(''.1.3.6.1.2.1.31.1.1.1.1'', [row ''.1.3.6.1.2.1.31.1.1.1.1.9'' (Uint 5)], None)]\<rparr>"

text \<open>A device with a counter row for interface 9 and no label row at all.\<close>

definition dev_unlabelled :: device where
  "dev_unlabelled =
     \<lparr>connect_result = None,
      walk_reply = reply_of
        [(''.1.3.6.1.2.1.2.2.1.10'', [row ''.1.3.6.1.2.1.2.2.1.10.9'' (Uint 8000)], None)]\<rparr>"

text \<open>
  As \<open>dev_uplink\<close>, with a receive-bytes row for an interface 7 that has no label row,
  delivered before the row of interface 9.
\<close>

definition dev_partial :: device where
  "dev_partial =
     \<lparr>connect_result = None,
      walk_reply = reply_of
        [(''.1.3.6.1.2.1.31.1.1.1.1'',
            [row ''.1.3.6.1.2.1.31.1.1.1.1.9'' (ByteSlice ''ge-0/0/0'')], None),
         (''.1.3.6.1.2.1.31.1.1.1.18'',
            [row ''.1.3.6.1.2.1.31.1.1.1.18.9'' (ByteSlice ''uplink'')], None),
         (''.1.3.6.1.2.1.2.2.1.10'',
            [row ''.1.3.6.1.2.1.2.2.1.10.7'' (Uint 8),
             row ''.1.3.6.1.2.1.2.2.1.10.9'' (Uint 8000)], None)]\<rparr>"

text \<open>
  A device whose name walk breaks off after its first row and whose transmit-bytes walk
  fails at once.
\<close>

definition dev_flaky :: device where
  "dev_flaky =
     \<lparr>connect_result = None,
      walk_reply = reply_of
        [(''.1.3.6.1.2.1.31.1.1.1.1'',
            [row ''.1.3.6.1.2.1.31.1.1.1.1.9'' (ByteSlice ''ge-0/0/0'')],
            Some (SnmpError ''request timeout'')),
         (''.1.3.6.1.2.1.31.1.1.1.18'',
            [row ''.1.3.6.1.2.1.31.1.1.1.18.9'' (ByteSlice ''uplink'')], None),
         (''.1.3.6.1.2.1.2.2.1.10'',
            [row ''.1.3.6.1.2.1.2.2.1.10.9'' (Uint 8000)], None),
         (''.1.3.6.1.2.1.2.2.1.16'', [], Some (SnmpError ''no route''))]\<rparr>"

text \<open>
  A device with interface 9 in every table, the counter of the \<open>k\<close>-th counter table
  being \<open>8 * k\<close>.
\<close>

definition dev_counters :: device where
  "dev_counters =
     \<lparr>connect_result = None,
      walk_reply = reply_of
        [(''.1.3.6.1.2.1.31.1.1.1.1'',
            [row ''.1.3.6.1.2.1.31.1.1.1.1.9'' (ByteSlice ''ge-0/0/0'')], None),
         (''.1.3.6.1.2.1.31.1.1.1.18'',
            [row ''.1.3.6.1.2.1.31.1.1.1.18.9'' (ByteSlice ''uplink'')], None),
         (''.1.3.6.1.2.1.2.2.1.10'', [row ''.1.3.6.1.2.1.2.2.1.10.9'' (Uint 8)], None),
         (''.1.3.6.1.2.1.2.2.1.16'', [row ''.1.3.6.1.2.1.2.2.1.16.9'' (Uint 16)], None),
         (''.1.3.6.1.2.1.2.2.1.13'', [row ''.1.3.6.1.2.1.2.2.1.13.9'' (Uint 24)], None),
         (''.1.3.6.1.2.1.2.2.1.14'', [row ''.1.3.6.1.2.1.2.2.1.14.9'' (Uint 32)], None),
         (''.1.3.6.1.2.1.2.2.1.19'', [row ''.1.3.6.1.2.1.2.2.1.19.9'' (Uint 40)], None),
         (''.1.3.6.1.2.1.2.2.1.20'', [row ''.1.3.6.1.2.1.2.2.1.20.9'' (Uint 48)], None)]\<rparr>"

definition collector :: JunosCollector where
  "collector = \<lparr>targets = [''10.0.0.1'', ''10.0.0.2''], community = ''public''\<rparr>"

text \<open>The scope of 10.0.0.1 once the name row of interface 9 has been handled.\<close>

definition scope_nine :: scope where
  "scope_nine =
     state_of (handlePduAsLabel 0 (row ''.1.3.6.1.2.1.31.1.1.1.1.9'' (ByteSlice ''ge-0/0/0''))
       (new_scope collector ''10.0.0.1''))"


section \<open>Evaluation\<close>

lemmas desc_defs =
  upDesc_def receiveBytesDesc_def receiveErrorsDesc_def receiveDropsDesc_def
  transmitBytesDesc_def transmitErrorsDesc_def transmitDropsDesc_def
  NewDesc_def l_init_def prefix_def

lemmas slice_defs =
  nil_slice_def cap_def elems_def make_slice_def growcap_def append_slice_def store_index_def

lemmas engine_defs =
  collectForTarget_def collectMetrics_def new_scope_def seq_def
  fetchInterfaceLabelFromOid_def fetchInterfaceMetricFromOid_def Walk_def log_walk_def
  handlePduAsLabel_def handlePduAsMetric_def getId_def NewConstMetric_def upMetric_def
  close_conn_def numberOfInterfaceLabels_def reply_of_def row_def

section \<open>Row identifiers\<close>

lemma takeWhile_no_sep: "c \<notin> set s \<Longrightarrow> takeWhile (\<lambda>x. x \<noteq> c) s = s"
  by (induction s) auto

lemma strings_Split_not_Nil: "strings_Split s c \<noteq> []"
  by (induction s) (auto split: list.splits)

lemma strings_Split_no_sep: "c \<notin> set s \<Longrightarrow> strings_Split s c = [s]"
  by (induction s) auto

lemma strings_Split_append: "strings_Split (a @ c # b) c = strings_Split a c @ strings_Split b c"
proof (induction a)
  case Nil
  show ?case by simp
next
  case (Cons x a)
  obtain w ws where "strings_Split a c = w # ws"
    using strings_Split_not_Nil [of a c] by (cases "strings_Split a c") auto
  with Cons show ?case by simp
qed

lemma last_strings_Split: "last (strings_Split s c) = rev (takeWhile (\<lambda>x. x \<noteq> c) (rev s))"
proof (cases "c \<in> set s")
  case False
  then show ?thesis by (simp add: strings_Split_no_sep takeWhile_no_sep)
next
  case True
  then have "c \<in> set (rev s)" by simp
  from split_list_first [OF this] obtain ys zs
    where sp: "rev s = ys @ c # zs" and ys: "c \<notin> set ys"
    by blast
  then have s: "s = rev zs @ c # rev ys"
    by (metis rev_append rev.simps(2) rev_rev_ident append.assoc append_Cons append_Nil)
  have tw: "takeWhile (\<lambda>x. x \<noteq> c) (rev s) = ys"
    using ys by (auto simp: sp takeWhile_tail takeWhile_no_sep)
  have "last (strings_Split s c) = last (strings_Split (rev ys) c)"
    by (simp add: s strings_Split_append strings_Split_not_Nil)
  also have "\<dots> = rev ys" using ys by (simp add: strings_Split_no_sep)
  finally show ?thesis by (simp add: tw)
qed

lemma getId_eq: "getId oid = Some (last_component oid)"
  using strings_Split_not_Nil [of oid "CHR ''.''"]
  by (simp add: getId_def Let_def last_component_def last_strings_Split [symmetric] last_conv_nth)






section \<open>Unit converters\<close>

text \<open>
  C7: \<open>bitsToBytes\<close> is the unsigned integer division by 8 on every value, with 0 and
  the largest value as instances, and never exceeds its argument; \<open>noConvert\<close> returns its
  argument.
\<close>

theorem converters_exact:
  "bitsToBytes v = of_nat (unat v div 8) \<and>
   noConvert v = of_nat (unat v) \<and>
   bitsToBytes 0 = 0 \<and>
   bitsToBytes (- 1) = 2305843009213693951 \<and>
   noConvert (- 1) = 18446744073709551615 \<and>
   unat (v div 8) * 8 \<le> unat v \<and> unat v < unat (v div 8) * 8 + 8"
proof -
  have top: "unat (- 1 :: uint) = 18446744073709551615"
    by (simp add: unsigned_minus_1_eq_mask mask_eq_exp_minus_1)
  have "unat ((- 1 :: uint) div 8) = 18446744073709551615 div 8"
    unfolding unat_div top by simp
  then have a: "bitsToBytes (- 1) = 2305843009213693951"
    unfolding bitsToBytes_def by simp
  have b: "noConvert (- 1) = 18446744073709551615"
    unfolding noConvert_def top by simp
  have c: "unat v div 8 * 8 \<le> unat v \<and> unat v < unat v div 8 * 8 + 8"
    by arith
  have d: "bitsToBytes v = of_nat (unat v div 8)" "bitsToBytes 0 = 0"
    by (simp_all add: bitsToBytes_def unat_div)
  have e: "noConvert v = of_nat (unat v)"
    by (simp add: noConvert_def)
  from a b c d e show ?thesis
    by (simp add: unat_div)
qed

section \<open>Slices and the two row handlers\<close>

lemma append_slice_full:
  "cap h sl = slen sl \<Longrightarrow>
     append_slice h sl x =
       (h @ [elems h sl @ x # replicate (growcap (cap h sl) (Suc (slen sl)) - Suc (slen sl)) []],
        Slice (Some (length h)) (Suc (slen sl)))"
  by (auto simp: append_slice_def cap_def Let_def split: option.splits)

lemma elems_append_slice_full:
  "cap h sl = slen sl \<Longrightarrow> append_slice h sl x = (h', l') \<Longrightarrow>
     elems h' l' = elems h sl @ [x] \<and> h' = h @ [h' ! length h] \<and> arr l' = Some (length h)"
  by (auto simp: append_slice_full elems_def cap_def split: option.splits)

subsection \<open>The label handler\<close>

lemma handlePduAsLabel_frame:
  "snmp (state_of (handlePduAsLabel i p s)) = snmp s \<and>
   err (state_of (handlePduAsLabel i p s)) = err s \<and>
   ch (state_of (handlePduAsLabel i p s)) = ch s"
  by (auto simp: handlePduAsLabel_def make_slice_def Let_def
      split: option.splits payload.splits prod.splits)

lemma labels_inv_new_scope: "labels_inv (new_scope c t)"
  by (simp add: labels_inv_def new_scope_def)

lemma labels_inv_store:
  assumes "labels_inv s"
  shows "labels_inv (s\<lparr>heap := (heap s)[a := (heap s ! a)[i := b]]\<rparr>)"
  unfolding labels_inv_def
proof (intro allI impI)
  fix ident l
  assume "interfaceLabels (s\<lparr>heap := (heap s)[a := (heap s ! a)[i := b]]\<rparr>) ident = Some l"
  then have "interfaceLabels s ident = Some l" by simp
  with assms obtain a' where a': "arr l = Some a'" "a' < length (heap s)"
      "slen l = numberOfInterfaceLabels" "length (heap s ! a') = numberOfInterfaceLabels"
    unfolding labels_inv_def by blast
  have "length ((heap s)[a := (heap s ! a)[i := b]] ! a') = numberOfInterfaceLabels"
    using a' by (cases "a' = a") simp_all
  with a' show "\<exists>a'. arr l = Some a' \<and>
      a' < length (heap (s\<lparr>heap := (heap s)[a := (heap s ! a)[i := b]]\<rparr>)) \<and>
      slen l = numberOfInterfaceLabels \<and>
      length (heap (s\<lparr>heap := (heap s)[a := (heap s ! a)[i := b]]\<rparr>) ! a') =
        numberOfInterfaceLabels"
    by simp
qed

lemma labels_inv_handlePduAsLabel:
  assumes "labels_inv s"
  shows "labels_inv (state_of (handlePduAsLabel i p s))"
proof -
  obtain ident where ident: "getId (Name p) = Some ident"
    by (simp add: getId_eq)
  show ?thesis
  proof (cases "interfaceLabels s ident")
    case None
    with assms show ?thesis
      by (cases "Value p")
        (auto simp: labels_inv_def handlePduAsLabel_def ident make_slice_def store_index_def
          nth_append nth_list_update)
  next
    case (Some l)
    with assms labels_inv_store [OF assms] show ?thesis
      by (cases "Value p")
        (auto simp: handlePduAsLabel_def ident store_index_def split: option.splits)
  qed
qed

lemma panics_handlePduAsLabel:
  assumes "labels_inv s" "i < numberOfInterfaceLabels"
  shows "panics (handlePduAsLabel i p s) \<longleftrightarrow> \<not> is_ByteSlice (Value p)"
proof -
  obtain ident where ident: "getId (Name p) = Some ident"
    by (simp add: getId_eq)
  show ?thesis
  proof (cases "interfaceLabels s ident")
    case None
    with assms show ?thesis
      by (cases "Value p")
        (simp_all add: handlePduAsLabel_def ident make_slice_def store_index_def)
  next
    case (Some l)
    with assms obtain a where "arr l = Some a" "slen l = numberOfInterfaceLabels"
      by (auto simp: labels_inv_def)
    with Some assms show ?thesis
      by (cases "Value p")
        (simp_all add: handlePduAsLabel_def ident store_index_def)
  qed
qed

subsection \<open>The counter handler\<close>

lemma handlePduAsMetric_frame:
  "snmp (state_of (handlePduAsMetric d p cv s)) = snmp s \<and>
   err (state_of (handlePduAsMetric d p cv s)) = err s \<and>
   interfaceLabels (state_of (handlePduAsMetric d p cv s)) = interfaceLabels s"
  by (auto simp: handlePduAsMetric_def Let_def
      split: option.splits payload.splits prod.splits sum.splits)

lemma panics_handlePduAsMetric:
  "panics (handlePduAsMetric d p cv s) \<longleftrightarrow> \<not> is_Uint (Value p)"
  by (cases "Value p")
    (auto simp: handlePduAsMetric_def getId_eq Let_def split: prod.splits sum.splits)

lemma handlePduAsMetric_error:
  "handlePduAsMetric d p cv s = Return (Some e) s' \<Longrightarrow>
     e = errInconsistentCardinality \<and> ch s' = ch s"
  by (auto simp: handlePduAsMetric_def getId_eq NewConstMetric_def Let_def
      split: payload.splits prod.splits sum.splits if_splits)


text \<open>The slice the counter handler appends to has no spare capacity.\<close>

lemma lookup_full:
  assumes "labels_inv s"
  shows "cap (heap s) (case interfaceLabels s ident of None \<Rightarrow> nil_slice | Some l \<Rightarrow> l)
           = slen (case interfaceLabels s ident of None \<Rightarrow> nil_slice | Some l \<Rightarrow> l)"
proof (cases "interfaceLabels s ident")
  case None
  then show ?thesis by (simp add: nil_slice_def cap_def)
next
  case (Some l)
  with assms obtain a where "arr l = Some a" "slen l = numberOfInterfaceLabels"
      "length (heap s ! a) = numberOfInterfaceLabels"
    by (auto simp: labels_inv_def)
  with Some show ?thesis by (simp add: cap_def)
qed

lemma handlePduAsMetric_heap:
  assumes "labels_inv s"
  shows "\<exists>ext. heap (state_of (handlePduAsMetric d p cv s)) = heap s @ ext"
proof (cases "Value p")
  case (Uint v)
  let ?sl = "case interfaceLabels s (last_component (Name p)) of None \<Rightarrow> nil_slice | Some l \<Rightarrow> l"
  obtain h' l' where ap: "append_slice (heap s) ?sl (Target (snmp s)) = (h', l')"
    by (cases "append_slice (heap s) ?sl (Target (snmp s))")
  from elems_append_slice_full [OF lookup_full [OF assms] ap]
  have "h' = heap s @ [h' ! length (heap s)]" by simp
  then have "\<exists>ext. h' = heap s @ ext" by blast
  with Uint ap show ?thesis
    by (auto simp: handlePduAsMetric_def getId_eq Let_def split: sum.splits)
qed (simp_all add: handlePduAsMetric_def getId_eq)

lemma labels_inv_extend:
  "labels_inv s \<Longrightarrow> interfaceLabels s' = interfaceLabels s \<Longrightarrow> heap s' = heap s @ ext \<Longrightarrow>
     labels_inv s'"
  by (auto simp: labels_inv_def nth_append) 

lemma labels_inv_handlePduAsMetric:
  assumes "labels_inv s"
  shows "labels_inv (state_of (handlePduAsMetric d p cv s))"
  using handlePduAsMetric_heap [OF assms, of d p cv] handlePduAsMetric_frame [of d p cv s] assms
  by (auto intro: labels_inv_extend)

section \<open>Session setup\<close>

text \<open>
  C2: when \<open>Connect\<close> fails for a target, the error becomes the sticky error, no table
  is walked, the only metric the target's goroutine sends is its reachability metric, and
  that metric has the value 0.
\<close>

theorem connect_failure_skips_walks:
  assumes "connect_result dev = Some e"
  shows "collectMetrics dev (new_scope c target) = Return () ((new_scope c target)\<lparr>err := Some e\<rparr>) \<and>
         (\<exists>s. collectForTarget c dev target = Return () s \<and>
              err s = Some e \<and> Walked (snmp s) = [] \<and> Conn (snmp s) = conn_nil \<and>
              ch s = [constMetric upDesc 0 [target]])"
  using assms
  by (simp add: collectForTarget_def collectMetrics_def new_scope_def upMetric_def
      NewConstMetric_def upDesc_def NewDesc_def)

text \<open>C2 at the scenario of section 8: the session setup for 10.0.0.2 times out.\<close>

theorem connect_failure_skips_walks_witness:
  "collectForTarget collector dev_down ''10.0.0.2'' =
     Return () ((new_scope collector ''10.0.0.2'')
       \<lparr>err := Some (SnmpError ''timeout''), ch := [constMetric upDesc 0 [''10.0.0.2'']]\<rparr>)"
proof -
  have "connect_result dev_down = Some (SnmpError ''timeout'')"
    by (simp add: dev_down_def)
  from connect_failure_skips_walks [OF this, of collector "''10.0.0.2''"]
  show ?thesis
    by (auto simp: collectForTarget_def new_scope_def upMetric_def NewConstMetric_def
        upDesc_def NewDesc_def)
qed

section \<open>Counter rows without a label entry\<close>

lemma replicate_two: "replicate 2 x = [x, x]"
  by (simp add: numeral_2_eq_2)

lemma bitsToBytes_8000: "bitsToBytes 8000 = 1000"
  by (simp add: bitsToBytes_def)


text \<open>
  C4: a counter row whose index no label walk has seen. The lookup yields the nil
  slice, the label values are the target alone, the registry rejects them for the
  descriptor of three labels, and no interface metric is sent: the target's only metric
  is its reachability metric, with the value 0.
\<close>

theorem unlabelled_row_rejected:
  "handlePduAsMetric receiveBytesDesc (row ''.1.3.6.1.2.1.2.2.1.10.9'' (Uint 8000)) bitsToBytes
       (new_scope collector ''10.0.0.1'') =
     Return (Some errInconsistentCardinality)
       ((new_scope collector ''10.0.0.1'')\<lparr>heap := [[''10.0.0.1'']]\<rparr>) \<and>
   ch (state_of (collectForTarget collector dev_unlabelled ''10.0.0.1'')) =
     [constMetric upDesc 0 [''10.0.0.1'']] \<and>
   err (state_of (collectForTarget collector dev_unlabelled ''10.0.0.1'')) =
     Some errInconsistentCardinality"
  by (simp add: engine_defs slice_defs desc_defs dev_unlabelled_def collector_def)

section \<open>Walks, tables and the engine\<close>

subsection \<open>Walks\<close>

lemma walk_rows_preserves:
  assumes "\<And>p s. P s \<Longrightarrow> P (state_of (fn p s))" and "P s"
  shows "P (state_of (walk_rows fn ps final s))"
  using assms(2)
proof (induction ps arbitrary: s)
  case Nil
  then show ?case by simp
next
  case (Cons p ps)
  from assms(1) [OF Cons.prems, of p] Cons.IH show ?case
    by (cases "fn p s") (auto split: option.splits)
qed

lemma walk_rows_no_panic:
  assumes "\<And>p s. P s \<Longrightarrow> good p \<Longrightarrow> \<not> panics (fn p s) \<and> P (state_of (fn p s))"
    and "P s" and "list_all good ps"
  shows "\<not> panics (walk_rows fn ps final s)"
  using assms(2,3)
proof (induction ps arbitrary: s)
  case Nil
  then show ?case by simp
next
  case (Cons p ps)
  from Cons.prems have "good p" "list_all good ps" by simp_all
  with assms(1) [OF Cons.prems(1), of p] Cons.IH show ?case
    by (cases "fn p s") (auto split: option.splits)
qed

lemma walk_rows_append:
  "walk_rows fn pre None s = Return None sm \<Longrightarrow>
     walk_rows fn (pre @ ps) final s = walk_rows fn ps final sm"
  by (induction pre arbitrary: s) (auto split: outcome.splits option.splits)

lemma Walk_cases:
  obtains s' where "Walk dev oid fn s = Panic s'"
      "walk_rows fn (fst (walk_reply dev oid)) (snd (walk_reply dev oid)) s = Panic s'"
  | r s' where "Walk dev oid fn s = Return r (log_walk oid r s')"
      "walk_rows fn (fst (walk_reply dev oid)) (snd (walk_reply dev oid)) s = Return r s'"
  by (cases "walk_rows fn (fst (walk_reply dev oid)) (snd (walk_reply dev oid)) s")
    (auto simp: Walk_def)

lemma label_callback_state:
  "state_of (label_callback i p s) = state_of (handlePduAsLabel i p s) \<and>
   panics (label_callback i p s) = panics (handlePduAsLabel i p s)"
  by (cases "handlePduAsLabel i p s") simp_all

lemma callback_of_table:
  "fetch_table dev t s =
     (case Walk dev (table_oid t)
             (case t of LabelTable oid i \<Rightarrow> label_callback i
                      | CounterTable oid d cv \<Rightarrow> (\<lambda>pdu s. handlePduAsMetric d pdu cv s)) s of
        Panic s' \<Rightarrow> Panic s'
      | Return e s' \<Rightarrow>
          if e \<noteq> None \<and> err s' = None then Return () (s'\<lparr>err := e\<rparr>) else Return () s')"
  by (cases t) (simp_all add: fetchInterfaceLabelFromOid_def fetchInterfaceMetricFromOid_def)

lemma callback_preserves:
  assumes lab: "\<And>oid i p s. t = LabelTable oid i \<Longrightarrow> P s \<Longrightarrow>
               P (state_of (handlePduAsLabel i p s))"
    and met: "\<And>oid d cv p s. t = CounterTable oid d cv \<Longrightarrow> P s \<Longrightarrow>
               P (state_of (handlePduAsMetric d p cv s))"
    and "P s"
  shows "P (state_of (walk_rows
            (case t of LabelTable oid i \<Rightarrow> label_callback i
                     | CounterTable oid d cv \<Rightarrow> (\<lambda>pdu s. handlePduAsMetric d pdu cv s))
            ps final s))"
proof (cases t)
  case (LabelTable oid i)
  have "P (state_of (walk_rows (label_callback i) ps final s))"
    by (rule walk_rows_preserves [where P = P, OF _ assms(3)])
      (simp add: label_callback_state lab [OF LabelTable])
  with LabelTable show ?thesis by simp
next
  case (CounterTable oid d cv)
  have "P (state_of (walk_rows (\<lambda>pdu s. handlePduAsMetric d pdu cv s) ps final s))"
    by (rule walk_rows_preserves [where P = P, OF _ assms(3)])
      (simp add: met [OF CounterTable])
  with CounterTable show ?thesis by simp
qed

text \<open>
  A property of the state that the handlers keep and that neither the walk log nor the
  sticky error affects is kept by the walk of a table.
\<close>

lemma fetch_table_preserves:
  assumes lab: "\<And>oid i p s. t = LabelTable oid i \<Longrightarrow> P s \<Longrightarrow>
               P (state_of (handlePduAsLabel i p s))"
    and met: "\<And>oid d cv p s. t = CounterTable oid d cv \<Longrightarrow> P s \<Longrightarrow>
               P (state_of (handlePduAsMetric d p cv s))"
    and log: "\<And>oid r s. P s \<Longrightarrow> P (log_walk oid r s)"
    and upd: "\<And>e s. P s \<Longrightarrow> P (s\<lparr>err := e\<rparr>)"
    and "P s"
  shows "P (state_of (fetch_table dev t s))"
proof -
  let ?fn = "case t of LabelTable oid i \<Rightarrow> label_callback i
                     | CounterTable oid d cv \<Rightarrow> (\<lambda>pdu s. handlePduAsMetric d pdu cv s)"
  have rows: "P (state_of (walk_rows ?fn ps final s))" for ps final
    by (rule callback_preserves [where P = P, OF lab met assms(5)])
  show ?thesis
  proof (rule Walk_cases [of dev "table_oid t" ?fn s])
    fix s' assume "Walk dev (table_oid t) ?fn s = Panic s'"
      and "walk_rows ?fn (fst (walk_reply dev (table_oid t))) (snd (walk_reply dev (table_oid t))) s = Panic s'"
    with rows [of "fst (walk_reply dev (table_oid t))" "snd (walk_reply dev (table_oid t))"]
    show ?thesis by (simp add: callback_of_table)
  next
    fix r s' assume "Walk dev (table_oid t) ?fn s = Return r (log_walk (table_oid t) r s')"
      and "walk_rows ?fn (fst (walk_reply dev (table_oid t))) (snd (walk_reply dev (table_oid t))) s = Return r s'"
    with rows [of "fst (walk_reply dev (table_oid t))" "snd (walk_reply dev (table_oid t))"]
      log upd
    show ?thesis by (simp add: callback_of_table)
  qed
qed

subsection \<open>One table\<close>

lemma labels_inv_log_walk: "labels_inv (log_walk oid r s) = labels_inv s"
  by (simp add: labels_inv_def log_walk_def)

lemma labels_inv_err_update: "labels_inv (s\<lparr>err := e\<rparr>) = labels_inv s"
  by (simp add: labels_inv_def)

lemma fetch_table_labels_inv:
  "labels_inv s \<Longrightarrow> labels_inv (state_of (fetch_table dev t s))"
  by (rule fetch_table_preserves [where P = labels_inv])
    (simp_all add: labels_inv_handlePduAsLabel labels_inv_handlePduAsMetric
      labels_inv_log_walk labels_inv_err_update)

lemma fetch_table_session:
  "snmp (state_of (fetch_table dev t s)) =
     (snmp s)\<lparr>Walked := Walked (snmp (state_of (fetch_table dev t s)))\<rparr>"
proof -
  have "\<exists>w. snmp (state_of (fetch_table dev t s)) = (snmp s)\<lparr>Walked := w\<rparr>"
    by (rule fetch_table_preserves [where P = "\<lambda>s'. \<exists>w. snmp s' = (snmp s)\<lparr>Walked := w\<rparr>"])
      (auto simp: handlePduAsLabel_frame handlePduAsMetric_frame log_walk_def
        intro: exI [of _ "Walked (snmp s)"])
  then show ?thesis by auto
qed



lemma fetch_table_result:
  "(\<exists>s'. fetch_table dev t s = Panic s' \<and> snmp s' = snmp s \<and> err s' = err s) \<or>
   (\<exists>r s'. fetch_table dev t s = Return () s' \<and>
       snmp s' = (snmp s)\<lparr>Walked := Walked (snmp s) @ [(table_oid t, r)]\<rparr> \<and>
       err s' = (case err s of None \<Rightarrow> r | Some e \<Rightarrow> Some e))"
proof -
  let ?fn = "case t of LabelTable oid i \<Rightarrow> label_callback i
                     | CounterTable oid d cv \<Rightarrow> (\<lambda>pdu s. handlePduAsMetric d pdu cv s)"
  let ?ps = "fst (walk_reply dev (table_oid t))"
  let ?final = "snd (walk_reply dev (table_oid t))"
  have rows: "snmp (state_of (walk_rows ?fn ?ps ?final s)) = snmp s \<and>
      err (state_of (walk_rows ?fn ?ps ?final s)) = err s"
    by (rule callback_preserves [where P = "\<lambda>s'. snmp s' = snmp s \<and> err s' = err s"])
      (simp_all add: handlePduAsLabel_frame handlePduAsMetric_frame)
  show ?thesis
  proof (rule Walk_cases [of dev "table_oid t" ?fn s])
    fix s' assume "Walk dev (table_oid t) ?fn s = Panic s'"
      and "walk_rows ?fn ?ps ?final s = Panic s'"
    with rows show ?thesis by (simp add: callback_of_table)
  next
    fix r s' assume "Walk dev (table_oid t) ?fn s = Return r (log_walk (table_oid t) r s')"
      and "walk_rows ?fn ?ps ?final s = Return r s'"
    with rows show ?thesis
      by (cases "err s") (auto simp: callback_of_table log_walk_def)
  qed
qed

lemma label_slot_spec_tables:
  "LabelTable oid i \<in> set spec_tables \<Longrightarrow> i < numberOfInterfaceLabels"
  by (auto simp: spec_tables_def numberOfInterfaceLabels_def)

lemma fetch_table_no_panic:
  assumes "labels_inv s" "rows_fit dev t" "t \<in> set spec_tables"
  shows "\<not> panics (fetch_table dev t s)"
proof (cases t)
  case (LabelTable oid i)
  with assms(3) have i: "i < numberOfInterfaceLabels"
    by (simp add: label_slot_spec_tables)
  from assms(2) LabelTable
  have fit: "list_all (\<lambda>p. is_ByteSlice (Value p)) (fst (walk_reply dev oid))"
    by simp
  have "\<not> panics (walk_rows (label_callback i) (fst (walk_reply dev oid))
      (snd (walk_reply dev oid)) s)"
    by (rule walk_rows_no_panic [where P = labels_inv, OF _ assms(1) fit])
      (simp add: label_callback_state panics_handlePduAsLabel i labels_inv_handlePduAsLabel)
  with LabelTable show ?thesis
    by (auto simp: fetchInterfaceLabelFromOid_def Walk_def split: outcome.splits)
next
  case (CounterTable oid d cv)
  from assms(2) CounterTable
  have fit: "list_all (\<lambda>p. is_Uint (Value p)) (fst (walk_reply dev oid))"
    by simp
  have "\<not> panics (walk_rows (\<lambda>pdu s. handlePduAsMetric d pdu cv s) (fst (walk_reply dev oid))
      (snd (walk_reply dev oid)) s)"
    by (rule walk_rows_no_panic [where P = "\<lambda>s. True", OF _ _ fit])
      (simp_all add: panics_handlePduAsMetric)
  with CounterTable show ?thesis
    by (auto simp: fetchInterfaceMetricFromOid_def Walk_def split: outcome.splits)
qed

subsection \<open>The sequence of tables\<close>

lemma seq_Return:
  "seq m f = Return u s' \<Longrightarrow> \<exists>s1. m = Return () s1 \<and> f s1 = Return u s'"
  by (cases m) (auto simp: seq_def)

lemma seq_state:
  "state_of (seq m f) = (case m of Panic s \<Rightarrow> s | Return u s \<Rightarrow> state_of (f s))"
  by (cases m) (auto simp: seq_def)

lemma walk_tables_single: "walk_tables dev [t] s = fetch_table dev t s"
  by (cases "fetch_table dev t s") (auto simp: seq_def)

lemma first_error_step:
  "first_error ((case x of None \<Rightarrow> r | Some e \<Rightarrow> Some e) # rs) = first_error (x # r # rs)"
  by (cases x; cases r) simp_all

lemma walk_tables_Return:
  "walk_tables dev ts s = Return () s' \<Longrightarrow>
     \<exists>rs. snmp s' = (snmp s)\<lparr>Walked := Walked (snmp s) @ rs\<rparr> \<and>
          map fst rs = map table_oid ts \<and> err s' = first_error (err s # map snd rs)"
proof (induction ts arbitrary: s)
  case Nil
  then show ?case by (cases "err s") auto
next
  case (Cons t ts)
  from seq_Return [of "fetch_table dev t s" "walk_tables dev ts" "()" s'] Cons.prems
  obtain s1 where s1: "fetch_table dev t s = Return () s1" "walk_tables dev ts s1 = Return () s'"
    by auto
  from fetch_table_result [of dev t s] s1(1) obtain r
    where r: "snmp s1 = (snmp s)\<lparr>Walked := Walked (snmp s) @ [(table_oid t, r)]\<rparr>"
      "err s1 = (case err s of None \<Rightarrow> r | Some e \<Rightarrow> Some e)"
    by auto
  from Cons.IH [OF s1(2)] obtain rs
    where rs: "snmp s' = (snmp s1)\<lparr>Walked := Walked (snmp s1) @ rs\<rparr>"
      "map fst rs = map table_oid ts" "err s' = first_error (err s1 # map snd rs)"
    by blast
  from r rs have "snmp s' = (snmp s)\<lparr>Walked := Walked (snmp s) @ ((table_oid t, r) # rs)\<rparr> \<and>
      map fst ((table_oid t, r) # rs) = map table_oid (t # ts) \<and>
      err s' = first_error (err s # map snd ((table_oid t, r) # rs))"
    by (simp add: first_error_step)
  then show ?case by blast
qed


lemma walk_tables_no_panic:
  assumes "labels_inv s" "list_all (rows_fit dev) ts" "set ts \<subseteq> set spec_tables"
  shows "\<not> panics (walk_tables dev ts s)"
  using assms
proof (induction ts arbitrary: s)
  case Nil
  then show ?case by simp
next
  case (Cons t ts)
  then have "\<not> panics (fetch_table dev t s)"
    by (simp add: fetch_table_no_panic)
  moreover have "labels_inv (state_of (fetch_table dev t s))"
    using Cons.prems(1) by (rule fetch_table_labels_inv)
  ultimately show ?case
    using Cons.IH [of "state_of (fetch_table dev t s)"] Cons.prems
    by (cases "fetch_table dev t s") (simp_all add: seq_def)
qed

subsection \<open>The engine\<close>

lemma walk_tables_last: "walk_tables dev [t] = fetch_table dev t"
  by (rule ext) (rule walk_tables_single)

lemma walk_tables_more:
  "walk_tables dev (t # t' # ts) = (\<lambda>s. seq (fetch_table dev t s) (walk_tables dev (t' # ts)))"
  by (rule ext) simp

lemma fetch_table_fun:
  "fetch_table dev (LabelTable oid i) = fetchInterfaceLabelFromOid dev oid i"
  "fetch_table dev (CounterTable oid d cv) = fetchInterfaceMetricFromOid dev oid d cv"
  by (rule ext, simp)+

lemma collectMetrics_tables: "collectMetrics dev s = collect_tables spec_tables dev s"
  by (cases "connect_result dev")
    (simp_all add: collectMetrics_def collect_tables_def spec_tables_def Let_def
      walk_tables_last walk_tables_more fetch_table_fun)

lemma deferred_Close_state:
  "state_of (deferred_Close m) = close_conn (state_of m) \<and> panics (deferred_Close m) = panics m"
  by (cases m) simp_all

lemma collectMetrics_Return:
  assumes "collectMetrics dev s = Return () s'" "err s = None"
  shows "\<exists>rs. Walked (snmp s') = Walked (snmp s) @ rs \<and>
              err s' = first_error (connect_result dev # map snd rs) \<and>
              Target (snmp s') = Target (snmp s) \<and>
              map fst rs = (if connect_result dev = None then map table_oid spec_tables else [])"
proof (cases "connect_result dev")
  case (Some e)
  with assms have "s' = s\<lparr>err := Some e\<rparr>"
    by (simp add: collectMetrics_tables collect_tables_def)
  with Some show ?thesis by simp
next
  case None
  let ?s1 = "s\<lparr>snmp := (snmp s)\<lparr>Conn := conn_open\<rparr>\<rparr>"
  from None assms(1) have "deferred_Close (walk_tables dev spec_tables ?s1) = Return () s'"
    by (simp add: collectMetrics_tables collect_tables_def)
  then obtain s2 where s2: "walk_tables dev spec_tables ?s1 = Return () s2" "s' = close_conn s2"
    by (cases "walk_tables dev spec_tables ?s1") auto
  from walk_tables_Return [OF s2(1)] obtain rs
    where "snmp s2 = (snmp ?s1)\<lparr>Walked := Walked (snmp ?s1) @ rs\<rparr>"
      "map fst rs = map table_oid spec_tables" "err s2 = first_error (err ?s1 # map snd rs)"
    by blast
  with s2(2) None assms(2) show ?thesis
    by (auto simp: close_conn_def)
qed


lemma collectMetrics_no_panic:
  assumes "well_typed dev" "labels_inv s" "err s = None"
  shows "\<not> panics (collectMetrics dev s)"
proof -
  have "\<not> panics (walk_tables dev spec_tables s1)" if "labels_inv s1" for s1
    using that assms(1) by (simp add: walk_tables_no_panic well_typed_def)
  moreover have "labels_inv (s\<lparr>snmp := (snmp s)\<lparr>Conn := conn_open\<rparr>\<rparr>)"
    using assms(2) by (simp add: labels_inv_def)
  ultimately show ?thesis
    using assms(3)
    by (cases "connect_result dev")
      (simp_all add: collectMetrics_tables collect_tables_def deferred_Close_state)
qed

subsection \<open>One target\<close>




lemma outcome_Return: "\<not> panics m \<Longrightarrow> \<exists>u. m = Return u (state_of m)"
  by (cases m) simp_all

lemma log_walk_fields:
  "interfaceLabels (log_walk oid r s) = interfaceLabels s"
  "heap (log_walk oid r s) = heap s"
  "ch (log_walk oid r s) = ch s"
  "err (log_walk oid r s) = err s"
  by (simp_all add: log_walk_def)

section \<open>Rows of an unexpected type\<close>

text \<open>
  C3 as stated fails: a label row that carries an unsigned integer and a counter row
  that carries a byte string make their handlers panic, and the collection of a target
  whose device delivers such a label row panics with no sticky error recorded and
  nothing sent.
\<close>

theorem mistyped_row_panics_counterexample:
  "panics (handlePduAsLabel 0 (row ''.1.3.6.1.2.1.31.1.1.1.1.9'' (Uint 5))
      (new_scope collector ''10.0.0.1'')) \<and>
   panics (handlePduAsMetric receiveBytesDesc (row ''.1.3.6.1.2.1.2.2.1.10.9'' (ByteSlice ''8000''))
      bitsToBytes (new_scope collector ''10.0.0.1'')) \<and>
   panics (collectForTarget collector dev_mistyped ''10.0.0.1'') \<and>
   err (state_of (collectForTarget collector dev_mistyped ''10.0.0.1'')) = None \<and>
   ch (state_of (collectForTarget collector dev_mistyped ''10.0.0.1'')) = []"
  by (simp add: engine_defs slice_defs dev_mistyped_def collector_def)

text \<open>
  C3, as amended: a row handler panics exactly when the value of the row does not have
  the type the handler asserts (a byte string for a label row, an unsigned integer for
  a counter row). On a row of the asserted type the label handler returns, and the
  counter handler returns with no error or with the registry's cardinality error.
  Neither handler records a sticky error, whether it returns or panics.
\<close>

theorem mistyped_row_panics:
  assumes "labels_inv s" "i < numberOfInterfaceLabels"
  shows "(panics (handlePduAsLabel i p s) \<longleftrightarrow> \<not> is_ByteSlice (Value p)) \<and>
         (panics (handlePduAsMetric d p cv s) \<longleftrightarrow> \<not> is_Uint (Value p)) \<and>
         (is_ByteSlice (Value p) \<longrightarrow> (\<exists>s'. handlePduAsLabel i p s = Return () s')) \<and>
         (is_Uint (Value p) \<longrightarrow>
            (\<exists>r s'. handlePduAsMetric d p cv s = Return r s' \<and>
                    (r = None \<or> r = Some errInconsistentCardinality))) \<and>
         err (state_of (handlePduAsLabel i p s)) = err s \<and>
         err (state_of (handlePduAsMetric d p cv s)) = err s"
proof -
  have a: "panics (handlePduAsLabel i p s) \<longleftrightarrow> \<not> is_ByteSlice (Value p)"
    using assms by (rule panics_handlePduAsLabel)
  have b: "panics (handlePduAsMetric d p cv s) \<longleftrightarrow> \<not> is_Uint (Value p)"
    by (rule panics_handlePduAsMetric)
  have c: "\<exists>s'. handlePduAsLabel i p s = Return () s'" if "is_ByteSlice (Value p)"
    using that a outcome_Return [of "handlePduAsLabel i p s"] by auto
  have d: "\<exists>r s'. handlePduAsMetric d p cv s = Return r s' \<and>
      (r = None \<or> r = Some errInconsistentCardinality)" if "is_Uint (Value p)"
  proof -
    from that b outcome_Return [of "handlePduAsMetric d p cv s"]
    obtain r s' where r: "handlePduAsMetric d p cv s = Return r s'" by auto
    then show ?thesis
      using handlePduAsMetric_error [of d p cv s _ s'] by (cases r) auto
  qed
  from a b c d show ?thesis
    by (simp add: handlePduAsLabel_frame handlePduAsMetric_frame)
qed

text \<open>C3, as amended, at rows of the description table and of the receive-bytes table.\<close>

theorem mistyped_row_panics_witness:
  "panics (handlePduAsLabel 1 (row ''.1.3.6.1.2.1.31.1.1.1.18.9'' (Uint64 7))
      (new_scope collector ''10.0.0.1'')) \<and>
   \<not> panics (handlePduAsLabel 1 (row ''.1.3.6.1.2.1.31.1.1.1.18.9'' (ByteSlice ''uplink''))
      (new_scope collector ''10.0.0.1'')) \<and>
   panics (handlePduAsMetric receiveBytesDesc (row ''.1.3.6.1.2.1.2.2.1.10.9'' (Uint64 7))
      bitsToBytes (new_scope collector ''10.0.0.1'')) \<and>
   \<not> panics (handlePduAsMetric receiveBytesDesc (row ''.1.3.6.1.2.1.2.2.1.10.9'' (Uint 7))
      bitsToBytes (new_scope collector ''10.0.0.1''))"
proof -
  have i: "1 < numberOfInterfaceLabels"
    by (simp add: numberOfInterfaceLabels_def)
  have inv: "labels_inv (new_scope collector ''10.0.0.1'')"
    by (rule labels_inv_new_scope)
  note t = mistyped_row_panics [OF inv i, where d = receiveBytesDesc and cv = bitsToBytes]
  show ?thesis
    using t [where p = "row ''.1.3.6.1.2.1.31.1.1.1.18.9'' (Uint64 7)"]
      t [where p = "row ''.1.3.6.1.2.1.31.1.1.1.18.9'' (ByteSlice ''uplink'')"]
      t [where p = "row ''.1.3.6.1.2.1.2.2.1.10.9'' (Uint64 7)"]
      t [where p = "row ''.1.3.6.1.2.1.2.2.1.10.9'' (Uint 7)"]
    by (simp add: row_def)
qed

section \<open>The sticky error\<close>

lemma fetch_table_sticky:
  "err s = Some e \<Longrightarrow> err (state_of (fetch_table dev t s)) = Some e"
  using fetch_table_result [of dev t s] by auto

lemma fetch_table_first:
  assumes "err s = None" "fetch_table dev t s = Return () s'"
  shows "Walked (snmp s') = Walked (snmp s) @ [(table_oid t, err s')]"
  using fetch_table_result [of dev t s] assms by auto

text \<open>
  C5: starting from a scope without error, the sticky error after the collection of a
  target is the first failure among the result of \<open>Connect\<close> and the results of the
  walks, in the order they were made; a walk that starts with a sticky error set leaves
  it as it is, and a walk that starts without one leaves its own result; all eight
  tables are walked when \<open>Connect\<close> succeeds, whatever the walks return, and none when it
  fails. The collection returns when the rows have the types their handlers expect.
\<close>

theorem first_error_wins:
  assumes "err s = None" "Walked (snmp s) = []"
  shows "(\<forall>s'. collectMetrics dev s = Return () s' \<longrightarrow>
            err s' = first_error (connect_result dev # map snd (Walked (snmp s'))) \<and>
            map fst (Walked (snmp s')) =
              (if connect_result dev = None
               then [''.1.3.6.1.2.1.31.1.1.1.1'', ''.1.3.6.1.2.1.31.1.1.1.18'',
                     ''.1.3.6.1.2.1.2.2.1.10'', ''.1.3.6.1.2.1.2.2.1.16'',
                     ''.1.3.6.1.2.1.2.2.1.13'', ''.1.3.6.1.2.1.2.2.1.14'',
                     ''.1.3.6.1.2.1.2.2.1.19'', ''.1.3.6.1.2.1.2.2.1.20'']
               else [])) \<and>
         (well_typed dev \<and> labels_inv s \<longrightarrow> \<not> panics (collectMetrics dev s)) \<and>
         (\<forall>s1 oid i e. err s1 = Some e \<longrightarrow>
            err (state_of (fetchInterfaceLabelFromOid dev oid i s1)) = Some e) \<and>
         (\<forall>s1 oid d cv e. err s1 = Some e \<longrightarrow>
            err (state_of (fetchInterfaceMetricFromOid dev oid d cv s1)) = Some e) \<and>
         (\<forall>s1 s2 oid i. err s1 = None \<and> fetchInterfaceLabelFromOid dev oid i s1 = Return () s2 \<longrightarrow>
            Walked (snmp s2) = Walked (snmp s1) @ [(oid, err s2)]) \<and>
         (\<forall>s1 s2 oid d cv. err s1 = None \<and> fetchInterfaceMetricFromOid dev oid d cv s1 = Return () s2 \<longrightarrow>
            Walked (snmp s2) = Walked (snmp s1) @ [(oid, err s2)])"
proof -
  have a: "err s' = first_error (connect_result dev # map snd (Walked (snmp s'))) \<and>
      map fst (Walked (snmp s')) =
        (if connect_result dev = None
         then [''.1.3.6.1.2.1.31.1.1.1.1'', ''.1.3.6.1.2.1.31.1.1.1.18'',
               ''.1.3.6.1.2.1.2.2.1.10'', ''.1.3.6.1.2.1.2.2.1.16'',
               ''.1.3.6.1.2.1.2.2.1.13'', ''.1.3.6.1.2.1.2.2.1.14'',
               ''.1.3.6.1.2.1.2.2.1.19'', ''.1.3.6.1.2.1.2.2.1.20'']
         else [])"
    if "collectMetrics dev s = Return () s'" for s'
    using collectMetrics_Return [OF that assms(1)] assms(2)
    by (auto simp: spec_tables_def)
  have b: "\<not> panics (collectMetrics dev s)" if "well_typed dev" "labels_inv s"
    using that assms(1) by (rule collectMetrics_no_panic)
  have c: "err (state_of (fetchInterfaceLabelFromOid dev oid i s1)) = Some e"
    if "err s1 = Some e" for s1 oid i e
    using fetch_table_sticky [OF that, of dev "LabelTable oid i"] by simp
  have d: "err (state_of (fetchInterfaceMetricFromOid dev oid d cv s1)) = Some e"
    if "err s1 = Some e" for s1 oid d cv e
    using fetch_table_sticky [OF that, of dev "CounterTable oid d cv"] by simp
  have e: "Walked (snmp s2) = Walked (snmp s1) @ [(oid, err s2)]"
    if "err s1 = None" "fetchInterfaceLabelFromOid dev oid i s1 = Return () s2" for s1 s2 oid i
    using fetch_table_first [OF that(1), of dev "LabelTable oid i" s2] that(2) by simp
  have f: "Walked (snmp s2) = Walked (snmp s1) @ [(oid, err s2)]"
    if "err s1 = None" "fetchInterfaceMetricFromOid dev oid d cv s1 = Return () s2"
    for s1 s2 oid d cv
    using fetch_table_first [OF that(1), of dev "CounterTable oid d cv" s2] that(2) by simp
  from a b c d e f show ?thesis by blast
qed

text \<open>
  C5 at a device whose name walk and whose transmit-bytes walk fail: the error of the
  name walk is kept, and all eight tables are walked.
\<close>

theorem first_error_wins_witness:
  "\<not> panics (collectMetrics dev_flaky (new_scope collector ''10.0.0.1'')) \<and>
   map snd (Walked (snmp (state_of (collectMetrics dev_flaky (new_scope collector ''10.0.0.1''))))) =
     [Some (SnmpError ''request timeout''), None, None, Some (SnmpError ''no route''),
      None, None, None, None] \<and>
   map fst (Walked (snmp (state_of (collectMetrics dev_flaky (new_scope collector ''10.0.0.1''))))) =
     [''.1.3.6.1.2.1.31.1.1.1.1'', ''.1.3.6.1.2.1.31.1.1.1.18'',
      ''.1.3.6.1.2.1.2.2.1.10'', ''.1.3.6.1.2.1.2.2.1.16'',
      ''.1.3.6.1.2.1.2.2.1.13'', ''.1.3.6.1.2.1.2.2.1.14'',
      ''.1.3.6.1.2.1.2.2.1.19'', ''.1.3.6.1.2.1.2.2.1.20''] \<and>
   err (state_of (collectMetrics dev_flaky (new_scope collector ''10.0.0.1''))) =
     Some (SnmpError ''request timeout'')"
proof -
  let ?s = "new_scope collector ''10.0.0.1''"
  let ?m = "collectMetrics dev_flaky ?s"
  have s: "err ?s = None" "Walked (snmp ?s) = []"
    by (simp_all add: new_scope_def)
  have wt: "well_typed dev_flaky"
    by (simp add: well_typed_def spec_tables_def dev_flaky_def reply_of_def row_def)
  have conn: "connect_result dev_flaky = None"
    by (simp add: dev_flaky_def)
  note t = first_error_wins [OF s, of dev_flaky]
  have inv: "labels_inv ?s"
    by (rule labels_inv_new_scope)
  from t have "well_typed dev_flaky \<and> labels_inv ?s \<longrightarrow> \<not> panics ?m"
    by (rule conjunct2 [THEN conjunct1])
  with wt inv have np: "\<not> panics ?m"
    by simp
  then have ret: "?m = Return () (state_of ?m)"
    using outcome_Return [of ?m] by simp
  have w: "map snd (Walked (snmp (state_of ?m))) =
     [Some (SnmpError ''request timeout''), None, None, Some (SnmpError ''no route''),
      None, None, None, None]"
    by (simp add: engine_defs slice_defs desc_defs dev_flaky_def collector_def replicate_two
        bitsToBytes_8000)
  from t have "\<forall>s'. ?m = Return () s' \<longrightarrow>
      err s' = first_error (connect_result dev_flaky # map snd (Walked (snmp s'))) \<and>
      map fst (Walked (snmp s')) =
        (if connect_result dev_flaky = None
         then [''.1.3.6.1.2.1.31.1.1.1.1'', ''.1.3.6.1.2.1.31.1.1.1.18'',
               ''.1.3.6.1.2.1.2.2.1.10'', ''.1.3.6.1.2.1.2.2.1.16'',
               ''.1.3.6.1.2.1.2.2.1.13'', ''.1.3.6.1.2.1.2.2.1.14'',
               ''.1.3.6.1.2.1.2.2.1.19'', ''.1.3.6.1.2.1.2.2.1.20'']
         else [])"
    by (rule conjunct1)
  from this [rule_format, OF ret]
  have "err (state_of ?m) = first_error (connect_result dev_flaky #
        map snd (Walked (snmp (state_of ?m)))) \<and>
      map fst (Walked (snmp (state_of ?m))) =
        (if connect_result dev_flaky = None
         then [''.1.3.6.1.2.1.31.1.1.1.1'', ''.1.3.6.1.2.1.31.1.1.1.18'',
               ''.1.3.6.1.2.1.2.2.1.10'', ''.1.3.6.1.2.1.2.2.1.16'',
               ''.1.3.6.1.2.1.2.2.1.13'', ''.1.3.6.1.2.1.2.2.1.14'',
               ''.1.3.6.1.2.1.2.2.1.19'', ''.1.3.6.1.2.1.2.2.1.20'']
         else [])" .
  with np w conn show ?thesis
    by simp
qed

section \<open>A counter row whose metric is rejected\<close>

text \<open>
  C6 as stated fails: the receive-bytes walk delivers a row of interface 7, which has no
  label entry, before the row of interface 9. The row of interface 9 is not handled: no
  receive-bytes metric is sent, while the same device without the row of interface 7
  yields the metric of interface 9. The seven other tables are walked all the same.
\<close>

theorem remaining_rows_skipped:
  "ch (state_of (collectForTarget collector dev_partial ''10.0.0.1'')) =
     [constMetric upDesc 0 [''10.0.0.1'']] \<and>
   ch (state_of (collectForTarget collector dev_uplink ''10.0.0.1'')) =
     [constMetric receiveBytesDesc 1000 [''ge-0/0/0'', ''uplink'', ''10.0.0.1''],
      constMetric upDesc 1 [''10.0.0.1'']] \<and>
   map fst (Walked (snmp (state_of (collectForTarget collector dev_partial ''10.0.0.1'')))) =
     [''.1.3.6.1.2.1.31.1.1.1.1'', ''.1.3.6.1.2.1.31.1.1.1.18'',
      ''.1.3.6.1.2.1.2.2.1.10'', ''.1.3.6.1.2.1.2.2.1.16'',
      ''.1.3.6.1.2.1.2.2.1.13'', ''.1.3.6.1.2.1.2.2.1.14'',
      ''.1.3.6.1.2.1.2.2.1.19'', ''.1.3.6.1.2.1.2.2.1.20'']"
  by (simp add: engine_defs slice_defs desc_defs dev_partial_def dev_uplink_def collector_def
      replicate_two bitsToBytes_8000)

lemma walk_rows_frame:
  "snmp (state_of (walk_rows (\<lambda>pdu s. handlePduAsMetric d pdu cv s) ps final s)) = snmp s \<and>
   err (state_of (walk_rows (\<lambda>pdu s. handlePduAsMetric d pdu cv s) ps final s)) = err s"
  by (rule walk_rows_preserves [where P = "\<lambda>s'. snmp s' = snmp s \<and> err s' = err s"])
    (simp_all add: handlePduAsMetric_frame)

text \<open>
  C6, as amended: when the construction of the metric of a counter row fails, the walk
  ends there with that error (the registry's cardinality error): the rows after it are
  not handled and nothing is sent for the failing row, the error becomes the sticky
  error when none was recorded before, and a collection that returns has walked all
  eight tables.
\<close>

theorem failed_row_aborts_walk:
  assumes pre: "walk_rows (\<lambda>pdu s. handlePduAsMetric d pdu cv s) pre None s = Return None sm"
    and p: "handlePduAsMetric d p cv sm = Return (Some e) s1"
    and reply: "walk_reply dev oid = (pre @ p # rest, final)"
  shows "fetchInterfaceMetricFromOid dev oid d cv s =
           Return () (if err s = None then (log_walk oid (Some e) s1)\<lparr>err := Some e\<rparr>
                      else log_walk oid (Some e) s1) \<and>
         e = errInconsistentCardinality \<and> ch s1 = ch sm \<and> err s1 = err s \<and>
         (\<forall>s0 s'. err s0 = None \<and> connect_result dev = None \<and>
                  collectMetrics dev s0 = Return () s' \<longrightarrow>
            map fst (Walked (snmp s')) = map fst (Walked (snmp s0)) @
              [''.1.3.6.1.2.1.31.1.1.1.1'', ''.1.3.6.1.2.1.31.1.1.1.18'',
               ''.1.3.6.1.2.1.2.2.1.10'', ''.1.3.6.1.2.1.2.2.1.16'',
               ''.1.3.6.1.2.1.2.2.1.13'', ''.1.3.6.1.2.1.2.2.1.14'',
               ''.1.3.6.1.2.1.2.2.1.19'', ''.1.3.6.1.2.1.2.2.1.20''])"
proof -
  let ?fn = "\<lambda>pdu s. handlePduAsMetric d pdu cv s"
  have "walk_rows ?fn (pre @ p # rest) final s = walk_rows ?fn (p # rest) final sm"
    using pre by (rule walk_rows_append)
  with p have rows: "walk_rows ?fn (pre @ p # rest) final s = Return (Some e) s1"
    by simp
  from walk_rows_frame [of d cv pre None s] pre have sm: "err sm = err s"
    by simp
  from handlePduAsMetric_frame [of d p cv sm] p sm have s1: "err s1 = err s"
    by simp
  from rows reply s1
  have a: "fetchInterfaceMetricFromOid dev oid d cv s =
      Return () (if err s = None then (log_walk oid (Some e) s1)\<lparr>err := Some e\<rparr>
                 else log_walk oid (Some e) s1)"
    by (simp add: fetchInterfaceMetricFromOid_def Walk_def log_walk_fields)
  note b = handlePduAsMetric_error [OF p]
  have c: "map fst (Walked (snmp s')) = map fst (Walked (snmp s0)) @
      [''.1.3.6.1.2.1.31.1.1.1.1'', ''.1.3.6.1.2.1.31.1.1.1.18'',
       ''.1.3.6.1.2.1.2.2.1.10'', ''.1.3.6.1.2.1.2.2.1.16'',
       ''.1.3.6.1.2.1.2.2.1.13'', ''.1.3.6.1.2.1.2.2.1.14'',
       ''.1.3.6.1.2.1.2.2.1.19'', ''.1.3.6.1.2.1.2.2.1.20'']"
    if "err s0 = None" "connect_result dev = None" "collectMetrics dev s0 = Return () s'"
    for s0 s'
    using collectMetrics_Return [OF that(3) that(1)] that(2)
    by (auto simp: spec_tables_def)
  from a b s1 c show ?thesis by blast
qed

text \<open>A counter row without a label entry, in general.\<close>

lemma handlePduAsMetric_unlabelled:
  assumes "Value p = Uint v" "interfaceLabels s (last_component (Name p)) = None"
    "length (variableLabels d) \<noteq> 1"
  shows "handlePduAsMetric d p cv s =
           Return (Some errInconsistentCardinality) (s\<lparr>heap := heap s @ [[Target (snmp s)]]\<rparr>)"
  using assms
  by (simp add: handlePduAsMetric_def getId_eq append_slice_def nil_slice_def elems_def cap_def
      growcap_def NewConstMetric_def)

text \<open>
  C6, as amended, at the receive-bytes walk of the device above, in the scope that
  holds the name of interface 9.
\<close>

theorem failed_row_aborts_walk_witness:
  "fetchInterfaceMetricFromOid dev_partial ''.1.3.6.1.2.1.2.2.1.10'' receiveBytesDesc bitsToBytes
       scope_nine =
     Return ()
       ((log_walk ''.1.3.6.1.2.1.2.2.1.10'' (Some errInconsistentCardinality)
           (scope_nine\<lparr>heap := heap scope_nine @ [[''10.0.0.1'']]\<rparr>))
        \<lparr>err := Some errInconsistentCardinality\<rparr>) \<and>
   ch (state_of (fetchInterfaceMetricFromOid dev_partial ''.1.3.6.1.2.1.2.2.1.10''
       receiveBytesDesc bitsToBytes scope_nine)) = [] \<and>
   ch (state_of (handlePduAsMetric receiveBytesDesc (row ''.1.3.6.1.2.1.2.2.1.10.9'' (Uint 8000))
       bitsToBytes scope_nine)) =
     [constMetric receiveBytesDesc 1000 [''ge-0/0/0'', [], ''10.0.0.1'']]"
proof -
  let ?p = "row ''.1.3.6.1.2.1.2.2.1.10.7'' (Uint 8)"
  let ?q = "row ''.1.3.6.1.2.1.2.2.1.10.9'' (Uint 8000)"
  let ?s1 = "scope_nine\<lparr>heap := heap scope_nine @ [[''10.0.0.1'']]\<rparr>"
  have fields: "err scope_nine = None" "ch scope_nine = []"
      "Target (snmp scope_nine) = ''10.0.0.1''"
    by (simp_all add: scope_nine_def handlePduAsLabel_frame new_scope_def)
  have seven: "interfaceLabels scope_nine (last_component (Name ?p)) = None"
    by (simp add: scope_nine_def engine_defs slice_defs last_component_def)
  have pre: "walk_rows (\<lambda>pdu s. handlePduAsMetric receiveBytesDesc pdu bitsToBytes s) [] None
      scope_nine = Return None scope_nine"
    by simp
  have p: "handlePduAsMetric receiveBytesDesc ?p bitsToBytes scope_nine =
      Return (Some errInconsistentCardinality) ?s1"
    using handlePduAsMetric_unlabelled [of ?p 8 scope_nine receiveBytesDesc bitsToBytes] seven
    by (simp add: row_def fields desc_defs)
  have reply: "walk_reply dev_partial ''.1.3.6.1.2.1.2.2.1.10'' = ([] @ ?p # [?q], None)"
    by (simp add: dev_partial_def reply_of_def)
  have nine: "ch (state_of (handlePduAsMetric receiveBytesDesc ?q bitsToBytes scope_nine)) =
      [constMetric receiveBytesDesc 1000 [''ge-0/0/0'', [], ''10.0.0.1'']]"
    by (simp add: scope_nine_def engine_defs slice_defs desc_defs replicate_two bitsToBytes_8000)
  from failed_row_aborts_walk [OF pre p reply] fields nine
  show ?thesis
    by (simp add: log_walk_fields)
qed

section \<open>Descriptors and polled tables\<close>

text \<open>
  C8: \<open>Describe\<close> sends the seven descriptors, the same for every collector, with the
  names and label names of section 6; and \<open>collectMetrics\<close> is the engine of section 4.4
  run on the tables of section 6: the two label tables with their slots, then the six
  counter tables, each with its descriptor and its converter.
\<close>

theorem descriptors_and_tables:
  "Describe c =
     [upDesc, receiveBytesDesc, receiveErrorsDesc, receiveDropsDesc,
      transmitBytesDesc, transmitDropsDesc, transmitErrorsDesc] \<and>
   Describe c = Describe c' \<and>
   length (Describe c) = 7 \<and> distinct (Describe c) \<and>
   map fqName (Describe c) =
     [''junos_up'', ''junos_interface_receive_bytes'', ''junos_interface_receive_errors'',
      ''junos_interface_receive_drops'', ''junos_interface_transmit_bytes'',
      ''junos_interface_transmit_drops'', ''junos_interface_transmit_errors''] \<and>
   map variableLabels (Describe c) =
     [[''target''], [''name'', ''description'', ''target''], [''name'', ''description'', ''target''],
      [''name'', ''description'', ''target''], [''name'', ''description'', ''target''],
      [''name'', ''description'', ''target''], [''name'', ''description'', ''target'']] \<and>
   spec_tables =
     [LabelTable ''.1.3.6.1.2.1.31.1.1.1.1'' 0,
      LabelTable ''.1.3.6.1.2.1.31.1.1.1.18'' 1,
      CounterTable ''.1.3.6.1.2.1.2.2.1.10'' receiveBytesDesc bitsToBytes,
      CounterTable ''.1.3.6.1.2.1.2.2.1.16'' transmitBytesDesc bitsToBytes,
      CounterTable ''.1.3.6.1.2.1.2.2.1.13'' receiveDropsDesc noConvert,
      CounterTable ''.1.3.6.1.2.1.2.2.1.14'' receiveErrorsDesc noConvert,
      CounterTable ''.1.3.6.1.2.1.2.2.1.19'' transmitDropsDesc noConvert,
      CounterTable ''.1.3.6.1.2.1.2.2.1.20'' transmitErrorsDesc noConvert] \<and>
   collectMetrics dev s = collect_tables spec_tables dev s"
proof -
  have "distinct (Describe c)"
    by (simp add: Describe_def desc_defs)
  moreover have "collectMetrics dev s = collect_tables spec_tables dev s"
    by (rule collectMetrics_tables)
  ultimately show ?thesis
    by (simp add: Describe_def desc_defs spec_tables_def)
qed

lemma noConvert_numeral: "noConvert 24 = 24" "noConvert 32 = 32" "noConvert 40 = 40" "noConvert 48 = 48"
  by (simp_all add: noConvert_def)

lemma bitsToBytes_numeral: "bitsToBytes 8 = 1" "bitsToBytes 16 = 2"
  by (simp_all add: bitsToBytes_def)

text \<open>
  C8 at a device with a different counter in each table: each value arrives under the
  descriptor of its table, the two byte counters divided by 8.
\<close>

theorem descriptors_and_tables_witness:
  "ch (state_of (collectMetrics dev_counters (new_scope collector ''10.0.0.1''))) =
     [constMetric receiveBytesDesc 1 [''ge-0/0/0'', ''uplink'', ''10.0.0.1''],
      constMetric transmitBytesDesc 2 [''ge-0/0/0'', ''uplink'', ''10.0.0.1''],
      constMetric receiveDropsDesc 24 [''ge-0/0/0'', ''uplink'', ''10.0.0.1''],
      constMetric receiveErrorsDesc 32 [''ge-0/0/0'', ''uplink'', ''10.0.0.1''],
      constMetric transmitDropsDesc 40 [''ge-0/0/0'', ''uplink'', ''10.0.0.1''],
      constMetric transmitErrorsDesc 48 [''ge-0/0/0'', ''uplink'', ''10.0.0.1'']] \<and>
   set (Describe collector) =
     {upDesc, receiveBytesDesc, receiveErrorsDesc, receiveDropsDesc,
      transmitBytesDesc, transmitDropsDesc, transmitErrorsDesc}"
proof -
  note t = descriptors_and_tables [of collector collector dev_counters
      "new_scope collector ''10.0.0.1''"]
  from t have eq: "collectMetrics dev_counters (new_scope collector ''10.0.0.1'') =
      collect_tables spec_tables dev_counters (new_scope collector ''10.0.0.1'')"
    by (rule conjunct2 [THEN conjunct2, THEN conjunct2, THEN conjunct2, THEN conjunct2,
          THEN conjunct2, THEN conjunct2])
  from t have d: "Describe collector =
     [upDesc, receiveBytesDesc, receiveErrorsDesc, receiveDropsDesc,
      transmitBytesDesc, transmitDropsDesc, transmitErrorsDesc]"
    by (rule conjunct1)
  have "ch (state_of (collect_tables spec_tables dev_counters (new_scope collector ''10.0.0.1''))) =
     [constMetric receiveBytesDesc 1 [''ge-0/0/0'', ''uplink'', ''10.0.0.1''],
      constMetric transmitBytesDesc 2 [''ge-0/0/0'', ''uplink'', ''10.0.0.1''],
      constMetric receiveDropsDesc 24 [''ge-0/0/0'', ''uplink'', ''10.0.0.1''],
      constMetric receiveErrorsDesc 32 [''ge-0/0/0'', ''uplink'', ''10.0.0.1''],
      constMetric transmitDropsDesc 40 [''ge-0/0/0'', ''uplink'', ''10.0.0.1''],
      constMetric transmitErrorsDesc 48 [''ge-0/0/0'', ''uplink'', ''10.0.0.1'']]"
    by (simp add: collect_tables_def spec_tables_def engine_defs slice_defs desc_defs
        dev_counters_def collector_def replicate_two noConvert_numeral bitsToBytes_numeral)
  with eq d show ?thesis by simp
qed

section \<open>The label table under counter walks\<close>

text \<open>With spare capacity, \<open>append\<close> writes into the array the slice shares.\<close>

lemma append_slice_shares:
  "append_slice [[''a'', []]] (Slice (Some 0) 1) ''b'' = ([[''a'', ''b'']], Slice (Some 0) 2)"
  by (simp add: append_slice_def)

lemma counter_walk_frame:
  assumes "labels_inv s"
  shows "labels_inv (state_of (fetchInterfaceMetricFromOid dev oid d cv s)) \<and>
         interfaceLabels (state_of (fetchInterfaceMetricFromOid dev oid d cv s)) = interfaceLabels s \<and>
         (\<exists>ext. heap (state_of (fetchInterfaceMetricFromOid dev oid d cv s)) = heap s @ ext)"
proof -
  let ?P = "\<lambda>s'. labels_inv s' \<and> interfaceLabels s' = interfaceLabels s \<and>
                 (\<exists>ext. heap s' = heap s @ ext)"
  have "?P (state_of (fetch_table dev (CounterTable oid d cv) s))"
  proof (rule fetch_table_preserves [where P = ?P])
    fix oid' d' cv' p and s' :: scope
    assume "?P s'"
    then obtain ext where s': "labels_inv s'" "interfaceLabels s' = interfaceLabels s"
        "heap s' = heap s @ ext"
      by blast
    from handlePduAsMetric_heap [OF s'(1), of d' p cv'] obtain ext'
      where "heap (state_of (handlePduAsMetric d' p cv' s')) = heap s' @ ext'"
      by blast
    with s' have "heap (state_of (handlePduAsMetric d' p cv' s')) = heap s @ (ext @ ext')"
      by simp
    then have "\<exists>ext. heap (state_of (handlePduAsMetric d' p cv' s')) = heap s @ ext"
      by blast
    with s' show "?P (state_of (handlePduAsMetric d' p cv' s'))"
      by (simp add: labels_inv_handlePduAsMetric handlePduAsMetric_frame)
  qed (use assms in \<open>auto simp: labels_inv_log_walk labels_inv_err_update log_walk_fields\<close>)
  then show ?thesis by simp
qed

lemma elems_extend:
  assumes "labels_inv s" "interfaceLabels s ident = Some l"
  shows "elems (heap s @ ext) l = elems (heap s) l \<and> cap (heap s @ ext) l = cap (heap s) l \<and>
     slen l = numberOfInterfaceLabels \<and> cap (heap s) l = numberOfInterfaceLabels"
proof -
  from assms obtain a where "arr l = Some a" "a < length (heap s)"
      "slen l = numberOfInterfaceLabels" "length (heap s ! a) = numberOfInterfaceLabels"
    unfolding labels_inv_def by blast
  then show ?thesis
    by (simp add: elems_def cap_def nth_append)
qed

text \<open>
  C10: every entry of the label table is created and kept as a slice of
  \<open>numberOfInterfaceLabels\<close> elements that fills its array. From such a table, the
  \<open>append\<close> of a counter row yields a slice on a new array, a counter row and a whole
  counter walk leave the table and every array allocated before as they were, so every
  entry reads the same afterwards, and the shape of the table is kept.
\<close>

theorem counter_walk_keeps_labels:
  assumes "labels_inv s"
  shows "interfaceLabels (state_of (fetchInterfaceMetricFromOid dev oid d cv s)) = interfaceLabels s \<and>
         take (length (heap s)) (heap (state_of (fetchInterfaceMetricFromOid dev oid d cv s))) = heap s \<and>
         (\<forall>ident l. interfaceLabels s ident = Some l \<longrightarrow>
            slen l = numberOfInterfaceLabels \<and> cap (heap s) l = numberOfInterfaceLabels \<and>
            elems (heap (state_of (fetchInterfaceMetricFromOid dev oid d cv s))) l = elems (heap s) l) \<and>
         interfaceLabels (state_of (handlePduAsMetric d p cv s)) = interfaceLabels s \<and>
         take (length (heap s)) (heap (state_of (handlePduAsMetric d p cv s))) = heap s \<and>
         arr (snd (append_slice (heap s)
                (case interfaceLabels s ident of None \<Rightarrow> nil_slice | Some l \<Rightarrow> l) x))
           = Some (length (heap s)) \<and>
         labels_inv (state_of (fetchInterfaceMetricFromOid dev oid d cv s)) \<and>
         labels_inv (state_of (handlePduAsLabel i p s)) \<and>
         labels_inv (new_scope c target)"
proof -
  from counter_walk_frame [OF assms, of dev oid d cv] obtain ext
    where w: "labels_inv (state_of (fetchInterfaceMetricFromOid dev oid d cv s))"
      "interfaceLabels (state_of (fetchInterfaceMetricFromOid dev oid d cv s)) = interfaceLabels s"
      "heap (state_of (fetchInterfaceMetricFromOid dev oid d cv s)) = heap s @ ext"
    by blast
  from handlePduAsMetric_heap [OF assms, of d p cv] obtain ext'
    where r: "heap (state_of (handlePduAsMetric d p cv s)) = heap s @ ext'"
    by blast
  have fresh: "arr (snd (append_slice (heap s)
      (case interfaceLabels s ident of None \<Rightarrow> nil_slice | Some l \<Rightarrow> l) x)) = Some (length (heap s))"
    using append_slice_full [OF lookup_full [OF assms, of ident], of x] by simp
  from w r fresh assms show ?thesis
    by (simp add: elems_extend handlePduAsMetric_frame labels_inv_handlePduAsLabel
        labels_inv_new_scope)
qed

text \<open>
  C10 at the receive-bytes walk in the scope that holds the name of interface 9: the
  array of the entry is untouched, the metric's labels are on a new array.
\<close>

theorem counter_walk_keeps_labels_witness:
  "interfaceLabels (state_of (fetchInterfaceMetricFromOid dev_uplink ''.1.3.6.1.2.1.2.2.1.10''
        receiveBytesDesc bitsToBytes scope_nine)) = interfaceLabels scope_nine \<and>
   heap scope_nine = [[''ge-0/0/0'', []]] \<and>
   take 1 (heap (state_of (fetchInterfaceMetricFromOid dev_uplink ''.1.3.6.1.2.1.2.2.1.10''
        receiveBytesDesc bitsToBytes scope_nine))) = [[''ge-0/0/0'', []]] \<and>
   ch (state_of (fetchInterfaceMetricFromOid dev_uplink ''.1.3.6.1.2.1.2.2.1.10''
        receiveBytesDesc bitsToBytes scope_nine)) =
     [constMetric receiveBytesDesc 1000 [''ge-0/0/0'', [], ''10.0.0.1'']]"
proof -
  have inv: "labels_inv scope_nine"
    unfolding scope_nine_def by (rule labels_inv_handlePduAsLabel [OF labels_inv_new_scope])
  have h: "heap scope_nine = [[''ge-0/0/0'', []]]"
    by (simp add: scope_nine_def engine_defs slice_defs replicate_two)
  have c: "ch (state_of (fetchInterfaceMetricFromOid dev_uplink ''.1.3.6.1.2.1.2.2.1.10''
        receiveBytesDesc bitsToBytes scope_nine)) =
     [constMetric receiveBytesDesc 1000 [''ge-0/0/0'', [], ''10.0.0.1'']]"
    by (simp add: scope_nine_def engine_defs slice_defs desc_defs replicate_two dev_uplink_def
        bitsToBytes_8000)
  from counter_walk_keeps_labels [OF inv, of dev_uplink "''.1.3.6.1.2.1.2.2.1.10''"
      receiveBytesDesc bitsToBytes]
  show ?thesis
    by (simp add: h c)
qed

section \<open>Reachability of every target\<close>

subsection \<open>Interleavings\<close>








subsection \<open>All targets\<close>












end
